theory Spec2Isabelle
  imports Complex_Main
begin

section \<open>Python strings\<close>

text \<open>
  A Python \<open>str\<close> is a sequence of Unicode code points and \<open>len\<close> counts code points,
  so user text is a list of code points. \<open>ascii\<close> reads an ASCII literal as such a text.
\<close>

type_synonym codepoint = nat
type_synonym str = "codepoint list"

definition ascii :: "string \<Rightarrow> str" where
  "ascii cs = map of_char cs"

text \<open>
  \<open>str.isspace\<close> on one code point, which is also the set \<open>str.strip()\<close> removes:
  U+0009..U+000D, U+001C..U+0020, U+0085, U+00A0, U+1680, U+2000..U+200A, U+2028, U+2029,
  U+202F, U+205F, U+3000.
\<close>

definition isspace :: "codepoint \<Rightarrow> bool" where
  "isspace c =
     ((9 \<le> c \<and> c \<le> 13) \<or> (28 \<le> c \<and> c \<le> 32) \<or> c = 133 \<or> c = 160 \<or> c = 5760
      \<or> (8192 \<le> c \<and> c \<le> 8202) \<or> c = 8232 \<or> c = 8233 \<or> c = 8239 \<or> c = 8287
      \<or> c = 12288)"

definition strip :: "str \<Rightarrow> str" where
  "strip t = rev (dropWhile isspace (rev (dropWhile isspace t)))"

section \<open>Exceptions\<close>

text \<open>
  The exceptions the chat code meets, as far as its handlers and messages tell them apart:
  \<open>requests.exceptions.Timeout\<close>, \<open>requests.exceptions.ConnectionError\<close>, the three
  that the body of the streaming loop can raise itself, and any other exception with its
  \<open>str(e)\<close>.
\<close>

datatype exn =
    Timeout | ConnectionError | UnicodeDecodeError | AttributeError | TypeError
  | OtherError str

section \<open>Application state\<close>

text \<open>
  The status texts of the source, one constructor per literal or format string (several
  carry an emoji, so they are named rather than spelled):
  \<^item> \<open>Ready\<close>: "Ready"; \<open>Thinking\<close>: "Thinking...";
  \<^item> \<open>NoResponse\<close>: "No response received from model";
  \<^item> \<open>HttpError code text\<close>: "Error: {status_code} - {text[:200]}";
  \<^item> \<open>TimedOut\<close>: "Request timed out. The model might be too slow or not responding.";
  \<^item> \<open>CannotConnect\<close>: "Cannot connect to Ollama. Make sure it's running.";
  \<^item> \<open>ErrorText e\<close>: "Error: {str(e)}"; \<open>ErrorShort t\<close>: "Error: {str(e)[:40]}";
  \<^item> \<open>ConnectedToOllama\<close>, \<open>NoModelsFound\<close>, \<open>OllamaReturnedError\<close>,
    \<open>CannotConnectTags\<close>: the four texts of \<open>load_available_models\<close>;
  \<^item> \<open>ProcessingSpeech\<close>, \<open>SpeakLouder\<close>, \<open>SpeechApiError e\<close>, \<open>CheckInternet\<close>,
    \<open>Recalibrated\<close>: the texts of \<open>listen_continuously\<close>;
  \<^item> \<open>VoiceCaptured\<close>: the text of \<open>process_voice_input\<close>.
\<close>

datatype status_text =
    Ready | Thinking | NoResponse | HttpError nat str | TimedOut | CannotConnect
  | ErrorText exn | ErrorShort str | ConnectedToOllama | NoModelsFound | OllamaReturnedError
  | CannotConnectTags | ProcessingSpeech | SpeakLouder | SpeechApiError str
  | CheckInternet | Recalibrated | VoiceCaptured

text \<open>
  The \<open>message\<close> argument of \<open>add_message\<close>: the text itself, the text behind the
  microphone emoji (\<open>f"<mic> {text}"\<close>), or one of the status texts.
\<close>

datatype message_text = Plain str | Voice str | Status status_text

text \<open>
  What the chat display holds, in insertion order. \<open>add_message\<close> inserts a prefix chosen
  by the sender and the message; the timestamp in the prefix is left out.
\<close>

datatype display_item =
    Message string message_text
  | StreamingPrefix
  | StreamingChunk str
  | StreamingEnd

record turn =
  role :: string
  content :: str

text \<open>
  The fields of \<open>HidebarApp\<close> that the chat and voice code reads and writes, the widgets
  by their content. \<open>threads\<close> holds the \<open>get_ollama_response\<close> threads that were started
  and have not returned yet, each by its argument.
\<close>

record app =
  model :: str
  conversation_history :: "turn list"
  input_field :: str
  chat_display :: "display_item list"
  status_bar :: status_text
  model_var :: str
  dropdown_values :: "str list"
  threads :: "str list"

definition add_message :: "string \<Rightarrow> message_text \<Rightarrow> app \<Rightarrow> app" where
  "add_message sender message s = s\<lparr>chat_display := chat_display s @ [Message sender message]\<rparr>"

definition update_status :: "status_text \<Rightarrow> app \<Rightarrow> app" where
  "update_status message s = s\<lparr>status_bar := message\<rparr>"

text \<open>
  \<open>self.input_field.get("1.0", tk.END)\<close>: a Tk text widget returns its content followed by
  the newline it always ends with.
\<close>

definition input_field_get :: "app \<Rightarrow> str" where
  "input_field_get s = input_field s @ [10]"

section \<open>Submitting a message\<close>

definition send_message :: "app \<Rightarrow> app" where
  "send_message s =
     (let message = strip (input_field_get s) in
      if message = [] then s
      else
        let s1 = s\<lparr>input_field := []\<rparr>;
            s2 = add_message ''user'' (Plain message) s1;
            s3 = s2\<lparr>conversation_history :=
                      conversation_history s2 @ [\<lparr>role = ''user'', content = message\<rparr>]\<rparr>;
            s4 = update_status Thinking s3
        in s4\<lparr>threads := threads s4 @ [message]\<rparr>)"

section \<open>Decoded lines\<close>

text \<open>
  What \<open>json.loads\<close> returns: \<open>None\<close>, \<open>bool\<close>, \<open>int\<close>, \<open>float\<close>, \<open>str\<close>, \<open>list\<close> or
  \<open>dict\<close> (a dictionary by its items; \<open>map_of\<close> looks a key up). A float is its value;
  the loop only asks whether it is zero.
\<close>

datatype json =
    JNone | JBool bool | JInt int | JFloat real | JStr str
  | JList "json list" | JDict "(str \<times> json) list"

text \<open>Python's truth value of such an object (\<open>if content:\<close>).\<close>

fun truthy :: "json \<Rightarrow> bool" where
  "truthy JNone = False"
| "truthy (JBool b) = b"
| "truthy (JInt i) = (i \<noteq> 0)"
| "truthy (JFloat r) = (r \<noteq> 0)"
| "truthy (JStr t) = (t \<noteq> [])"
| "truthy (JList xs) = (xs \<noteq> [])"
| "truthy (JDict kvs) = (kvs \<noteq> [])"

text \<open>
  \<open>x.get(key, dflt)\<close>: only a \<open>dict\<close> has the method, every other object raises
  \<open>AttributeError\<close>.
\<close>

fun dict_get :: "json \<Rightarrow> str \<Rightarrow> json \<Rightarrow> exn + json" where
  "dict_get (JDict kvs) key dflt =
     Inr (case map_of kvs key of None \<Rightarrow> dflt | Some v \<Rightarrow> v)"
| "dict_get _ key dflt = Inl AttributeError"

text \<open>
  One item of \<open>response.iter_lines()\<close>, by what the loop body makes of it: an empty
  line (\<open>if line\<close> is false), a line on which \<open>line.decode('utf-8')\<close> raises
  \<open>UnicodeDecodeError\<close>, a line on which \<open>json.loads\<close> raises \<open>json.JSONDecodeError\<close>, a
  line that \<open>json.loads\<close> turns into an object, or a line on which \<open>json.loads\<close> raises
  another exception (\<open>ValueError\<close> on an integer of more than 4300 digits,
  \<open>RecursionError\<close> on deep nesting), with its \<open>str(e)\<close>.
\<close>

datatype wire_line = Blank | NotUtf8 | NotJson | Json json | LoadsRaises str

section \<open>Calls posted to the UI thread\<close>

text \<open>
  The calls that background threads hand over with \<open>self.root.after(0, ...)\<close>.
  \<open>ModelVarSet\<close> is \<open>lambda: self.model_var.set(self.model)\<close>, which reads \<open>self.model\<close>
  when it runs. \<open>UnboundErrorStatus\<close> is \<open>lambda: self.update_status(f"Error: {str(e)}")\<close>
  posted from inside \<open>except Exception as e\<close>: it reads \<open>e\<close> when it runs, after the
  \<open>except\<close> block has unbound the name, so it raises \<open>NameError\<close> on the UI thread and sets
  no status.
\<close>

datatype callback =
    UpdateStatus status_text
  | AddMessage string message_text
  | StartStreamingMessage
  | AppendToStreaming str
  | FinishStreamingMessage
  | ProcessVoiceInput str
  | DropdownConfig "str list"
  | ModelVarSet
  | UnboundErrorStatus

definition start_streaming_message :: "app \<Rightarrow> app" where
  "start_streaming_message s = s\<lparr>chat_display := chat_display s @ [StreamingPrefix]\<rparr>"

definition append_to_streaming :: "str \<Rightarrow> app \<Rightarrow> app" where
  "append_to_streaming c s = s\<lparr>chat_display := chat_display s @ [StreamingChunk c]\<rparr>"

definition finish_streaming_message :: "app \<Rightarrow> app" where
  "finish_streaming_message s = s\<lparr>chat_display := chat_display s @ [StreamingEnd]\<rparr>"

definition process_voice_input :: "str \<Rightarrow> app \<Rightarrow> app" where
  "process_voice_input text0 s =
     (let text = strip text0 in
      if text = [] \<or> length text < 2 then s
      else
        let s1 = s\<lparr>input_field := text\<rparr>;
            s2 = add_message ''user'' (Voice text) s1;
            s3 = update_status VoiceCaptured s2
        in send_message s3)"

fun run_callback :: "callback \<Rightarrow> app \<Rightarrow> app" where
  "run_callback (UpdateStatus m) s = update_status m s"
| "run_callback (AddMessage sender m) s = add_message sender m s"
| "run_callback StartStreamingMessage s = start_streaming_message s"
| "run_callback (AppendToStreaming c) s = append_to_streaming c s"
| "run_callback FinishStreamingMessage s = finish_streaming_message s"
| "run_callback (ProcessVoiceInput t) s = process_voice_input t s"
| "run_callback (DropdownConfig ms) s = s\<lparr>dropdown_values := ms\<rparr>"
| "run_callback ModelVarSet s = s\<lparr>model_var := model s\<rparr>"
| "run_callback UnboundErrorStatus s = s"

text \<open>The UI thread runs the posted calls in the order they were posted.\<close>

fun run_callbacks :: "callback list \<Rightarrow> app \<Rightarrow> app" where
  "run_callbacks [] s = s"
| "run_callbacks (cb # cbs) s = run_callbacks cbs (run_callback cb s)"

section \<open>The streaming request\<close>

text \<open>
  The \<open>try\<close> block of the loop body on a decoded line: the new \<open>full_response\<close>, the
  calls posted so far and whether the loop breaks, or the exception that leaves the loop.
  \<open>full_response += content\<close> raises \<open>TypeError\<close> when \<open>content\<close> is not a \<open>str\<close>.
\<close>

definition process_line ::
  "json \<Rightarrow> str \<Rightarrow> callback list \<Rightarrow> exn + (str \<times> callback list \<times> bool)" where
  "process_line json_data full_response posted =
     (case dict_get json_data (ascii ''message'') (JDict []) of
        Inl e \<Rightarrow> Inl e
      | Inr message \<Rightarrow>
          (case dict_get message (ascii ''content'') (JStr []) of
             Inl e \<Rightarrow> Inl e
           | Inr content' \<Rightarrow>
               (case (if truthy content'
                      then (case content' of
                              JStr c \<Rightarrow> Inr (full_response @ c, posted @ [AppendToStreaming c])
                            | _ \<Rightarrow> Inl TypeError)
                      else Inr (full_response, posted)) of
                  Inl e \<Rightarrow> Inl e
                | Inr (full_response', posted') \<Rightarrow>
                    (case dict_get json_data (ascii ''done'') (JBool False) of
                       Inl e \<Rightarrow> Inl e
                     | Inr d \<Rightarrow> Inr (full_response', posted', truthy d)))))"

text \<open>
  \<open>for line in response.iter_lines()\<close>: the lines that arrive, and the exception that
  \<open>iter_lines\<close> raises after them, if the connection breaks or times out rather than
  ends. The result is the exception that leaves the loop or the final \<open>full_response\<close>,
  with the calls posted on the way.
\<close>

fun stream_loop ::
  "wire_line list \<Rightarrow> exn option \<Rightarrow> str \<Rightarrow> callback list \<Rightarrow> (exn + str) \<times> callback list" where
  "stream_loop [] raised full_response posted =
     (case raised of None \<Rightarrow> (Inr full_response, posted) | Some e \<Rightarrow> (Inl e, posted))"
| "stream_loop (Blank # ls) raised full_response posted =
     stream_loop ls raised full_response posted"
| "stream_loop (NotUtf8 # ls) raised full_response posted = (Inl UnicodeDecodeError, posted)"
| "stream_loop (NotJson # ls) raised full_response posted =
     stream_loop ls raised full_response posted"
| "stream_loop (Json json_data # ls) raised full_response posted =
     (case process_line json_data full_response posted of
        Inl e \<Rightarrow> (Inl e, posted)
      | Inr (full_response', posted', done) \<Rightarrow>
          if done then (Inr full_response', posted')
          else stream_loop ls raised full_response' posted')"
| "stream_loop (LoadsRaises e # ls) raised full_response posted = (Inl (OtherError e), posted)"

text \<open>
  What \<open>requests.post\<close> does: it raises, or it returns a response with its
  \<open>status_code\<close>, its \<open>text\<close>, the lines of its body and the exception that ends the
  body early, if any.
\<close>

datatype http_response =
    Raises exn
  | Response nat str "wire_line list" "exn option"

text \<open>The three \<open>except\<close> clauses of \<open>get_ollama_response\<close>, in the source's order.\<close>

fun error_msg :: "exn \<Rightarrow> status_text" where
  "error_msg Timeout = TimedOut"
| "error_msg ConnectionError = CannotConnect"
| "error_msg e = ErrorText e"

definition handle_exception :: "exn \<Rightarrow> callback list" where
  "handle_exception e =
     [UpdateStatus (error_msg e), AddMessage ''system'' (Status (error_msg e))]"

text \<open>The thread that runs \<open>get_ollama_response(user_message)\<close> returns.\<close>

definition thread_returns :: "str \<Rightarrow> app \<Rightarrow> app" where
  "thread_returns user_message s = s\<lparr>threads := remove1 user_message (threads s)\<rparr>"

text \<open>
  \<open>get_ollama_response\<close>, run by its thread against what the endpoint answers: the
  state it leaves and the calls it posts.
\<close>

definition get_ollama_response :: "str \<Rightarrow> http_response \<Rightarrow> app \<Rightarrow> app \<times> callback list" where
  "get_ollama_response user_message response s =
     (case response of
        Raises e \<Rightarrow> (thread_returns user_message s, handle_exception e)
      | Response status_code text ls raised \<Rightarrow>
          if status_code = 200 then
            (case stream_loop ls raised [] [] of
               (Inl e, posted) \<Rightarrow>
                 (thread_returns user_message s,
                  StartStreamingMessage # posted @ handle_exception e)
             | (Inr full_response, posted) \<Rightarrow>
                 if full_response \<noteq> [] then
                   (thread_returns user_message
                      (s\<lparr>conversation_history := conversation_history s @
                           [\<lparr>role = ''assistant'', content = full_response\<rparr>]\<rparr>),
                    StartStreamingMessage # posted @
                      [FinishStreamingMessage, UpdateStatus Ready])
                 else
                   (thread_returns user_message s,
                    StartStreamingMessage # posted @
                      [UpdateStatus NoResponse, AddMessage ''system'' (Status NoResponse)]))
          else
            (thread_returns user_message s,
             [UpdateStatus (HttpError status_code (take 200 text)),
              AddMessage ''system'' (Status (HttpError status_code (take 200 text)))]))"

text \<open>The texts of the \<open>AppendToStreaming\<close> calls among the posted calls, in order.\<close>

fun tokens :: "callback list \<Rightarrow> str list" where
  "tokens [] = []"
| "tokens (AppendToStreaming c # cbs) = c # tokens cbs"
| "tokens (_ # cbs) = tokens cbs"

section \<open>Listing the models\<close>

text \<open>
  What \<open>requests.get\<close> on \<open>/api/tags\<close> does: it raises, or it returns a response with its
  \<open>status_code\<close> and what \<open>[model["name"] for model in response.json().get("models", [])]\<close>
  gives on its body: the names, or the exception raised on the way.
\<close>

datatype tags_response =
    TagsRaises exn
  | TagsResponse nat "exn + str list"

text \<open>
  The two \<open>except\<close> clauses of \<open>load_available_models\<close>: the first posts a fixed text,
  the second a call that reads \<open>e\<close> when it runs.
\<close>

fun tags_error :: "exn \<Rightarrow> callback" where
  "tags_error ConnectionError = UpdateStatus CannotConnectTags"
| "tags_error e = UnboundErrorStatus"

definition load_available_models :: "tags_response \<Rightarrow> app \<Rightarrow> app \<times> callback list" where
  "load_available_models response s =
     (case response of
        TagsRaises e \<Rightarrow> (s, [tags_error e])
      | TagsResponse status_code names \<Rightarrow>
          if status_code = 200 then
            (case names of
               Inl e \<Rightarrow> (s, [tags_error e])
             | Inr models \<Rightarrow>
                 (case models of
                    [] \<Rightarrow> (s, [UpdateStatus NoModelsFound])
                  | first # _ \<Rightarrow>
                      if model s \<notin> set models then
                        (s\<lparr>model := first\<rparr>,
                         [DropdownConfig models, ModelVarSet, UpdateStatus ConnectedToOllama])
                      else
                        (s, [DropdownConfig models, UpdateStatus ConnectedToOllama])))
          else (s, [UpdateStatus OllamaReturnedError]))"

section \<open>The voice loop\<close>

definition max_errors :: nat where
  "max_errors = 5"

text \<open>
  One pass of \<open>while self.is_listening\<close>, by what the microphone and the recognition
  service do in it:
  \<^item> \<open>WaitTimeoutError\<close>: \<open>listen\<close> raises it;
  \<^item> \<open>Recognized text\<close>, \<open>UnknownValueError\<close>, \<open>RequestError e\<close>: what
    \<open>recognize_google\<close> returns or raises, with \<open>str(e)\<close>;
  \<^item> \<open>CaptureError e listening ok\<close>: the microphone or \<open>listen\<close> raises another
    exception; \<open>RecognizeError e listening ok\<close>: \<open>recognize_google\<close> does. \<open>listening\<close> is
    \<open>self.is_listening\<close> as the handler reads it, \<open>ok\<close> says whether
    \<open>adjust_for_ambient_noise\<close> returns rather than raises, should the handler call it.
\<close>

datatype iteration =
    WaitTimeoutError
  | Recognized str
  | UnknownValueError
  | RequestError str
  | CaptureError str bool bool
  | RecognizeError str bool bool

text \<open>
  What the loop does besides counting: calls posted to the UI thread, \<open>time.sleep\<close> (in
  milliseconds) and \<open>adjust_for_ambient_noise\<close> with whether it returned.
\<close>

datatype effect = Post callback | Sleep nat | AdjustForAmbientNoise bool

text \<open>The outer \<open>except Exception\<close> handler while \<open>self.is_listening\<close> holds.\<close>

definition handle_other :: "str \<Rightarrow> bool \<Rightarrow> nat \<Rightarrow> nat \<times> effect list" where
  "handle_other e ok consecutive_errors =
     (let c = consecutive_errors + 1;
          eff = [Post (UpdateStatus (ErrorShort (take 40 e)))]
      in if c \<ge> max_errors then
           (if ok then (0, eff @ [AdjustForAmbientNoise True, Post (UpdateStatus Recalibrated), Sleep 500])
            else (c, eff @ [AdjustForAmbientNoise False, Sleep 500]))
         else (c, eff @ [Sleep 500]))"

text \<open>
  One pass of the loop from \<open>consecutive_errors\<close>: the new count, what the pass did, and
  whether the loop goes on (it does not after \<open>break\<close>).
\<close>

fun listen_iteration :: "iteration \<Rightarrow> nat \<Rightarrow> nat \<times> effect list \<times> bool" where
  "listen_iteration WaitTimeoutError consecutive_errors = (consecutive_errors, [], True)"
| "listen_iteration (Recognized text) consecutive_errors =
     (if text \<noteq> [] \<and> length (strip text) > 0 then
        (0, [Post (UpdateStatus ProcessingSpeech), Post (ProcessVoiceInput text), Sleep 300], True)
      else (consecutive_errors, [Post (UpdateStatus ProcessingSpeech)], True))"
| "listen_iteration UnknownValueError consecutive_errors =
     (let c = consecutive_errors + 1 in
      if c \<ge> max_errors then
        (0, [Post (UpdateStatus ProcessingSpeech), Post (UpdateStatus SpeakLouder)], True)
      else (c, [Post (UpdateStatus ProcessingSpeech)], True))"
| "listen_iteration (RequestError e) consecutive_errors =
     (let c = consecutive_errors + 1;
          eff = [Post (UpdateStatus ProcessingSpeech),
                 Post (UpdateStatus (SpeechApiError (take 50 e)))]
      in if c \<ge> max_errors then (0, eff @ [Post (UpdateStatus CheckInternet), Sleep 1000], True)
         else (c, eff @ [Sleep 1000], True))"
| "listen_iteration (CaptureError e listening ok) consecutive_errors =
     (if listening then
        (case handle_other e ok consecutive_errors of (c, eff) \<Rightarrow> (c, eff, True))
      else (consecutive_errors, [], False))"
| "listen_iteration (RecognizeError e listening ok) consecutive_errors =
     (if listening then
        (case handle_other e ok consecutive_errors of
           (c, eff) \<Rightarrow> (c, Post (UpdateStatus ProcessingSpeech) # eff, True))
      else (consecutive_errors, [Post (UpdateStatus ProcessingSpeech)], False))"

text \<open>
  \<open>listen_continuously\<close> over the passes made while \<open>self.is_listening\<close> held at the head
  of the loop: the final \<open>consecutive_errors\<close> and everything the loop did.
\<close>

fun listen_loop :: "iteration list \<Rightarrow> nat \<Rightarrow> nat \<times> effect list" where
  "listen_loop [] consecutive_errors = (consecutive_errors, [])"
| "listen_loop (i # passes) consecutive_errors =
     (case listen_iteration i consecutive_errors of
        (c, eff, continue) \<Rightarrow>
          if continue then (case listen_loop passes c of (c', eff') \<Rightarrow> (c', eff @ eff'))
          else (c, eff))"

definition listen_continuously :: "iteration list \<Rightarrow> nat \<times> effect list" where
  "listen_continuously passes = listen_loop passes 0"

text \<open>The calls that the loop posted, and whether it recalibrated.\<close>

fun posted_calls :: "effect list \<Rightarrow> callback list" where
  "posted_calls [] = []"
| "posted_calls (Post cb # effs) = cb # posted_calls effs"
| "posted_calls (_ # effs) = posted_calls effs"

fun is_recalibration :: "effect \<Rightarrow> bool" where
  "is_recalibration (AdjustForAmbientNoise ok) = True"
| "is_recalibration _ = False"

fun failed_recalibration :: "iteration \<Rightarrow> bool" where
  "failed_recalibration (CaptureError e listening ok) = (listening \<and> \<not> ok)"
| "failed_recalibration (RecognizeError e listening ok) = (listening \<and> \<not> ok)"
| "failed_recalibration _ = False"

section \<open>What the stream and the posted calls show\<close>



fun is_failure_report :: "callback \<Rightarrow> bool" where
  "is_failure_report (AddMessage sender m) = (sender = ''system'')"
| "is_failure_report _ = False"


section \<open>Example inputs\<close>

text \<open>
  A state with an empty history, nothing typed and no request outstanding; the state
  after "hello" has been sent from it, while its stream is outstanding; and that state with
  "again" typed.
\<close>

abbreviation idle_app :: app where
  "idle_app \<equiv>
     \<lparr>model = ascii ''llama3.2:latest'', conversation_history = [], input_field = [],
      chat_display = [], status_bar = Ready, model_var = ascii ''llama3.2:latest'',
      dropdown_values = [], threads = []\<rparr>"

abbreviation waiting_app :: app where
  "waiting_app \<equiv>
     \<lparr>model = ascii ''llama3.2:latest'',
      conversation_history = [\<lparr>role = ''user'', content = ascii ''hello''\<rparr>],
      input_field = [],
      chat_display = [Message ''user'' (Plain (ascii ''hello''))],
      status_bar = Thinking, model_var = ascii ''llama3.2:latest'',
      dropdown_values = [], threads = [ascii ''hello'']\<rparr>"

abbreviation busy_app :: app where
  "busy_app \<equiv> waiting_app\<lparr>input_field := ascii ''again''\<rparr>"

text \<open>
  A line of the endpoint's stream as \<open>json.loads\<close> returns it:
  \<open>{"message": {"role": "assistant", "content": c}, "done": d}\<close>.
\<close>

abbreviation chunk :: "string \<Rightarrow> bool \<Rightarrow> json" where
  "chunk c d \<equiv>
     JDict [(ascii ''message'',
             JDict [(ascii ''role'', JStr (ascii ''assistant'')),
                    (ascii ''content'', JStr (ascii c))]),
            (ascii ''done'', JBool d)]"

section \<open>Stripping\<close>

lemma dropWhile_all: "(\<forall>x\<in>set (dropWhile P t). P x) \<longleftrightarrow> (\<forall>x\<in>set t. P x)"
  by (induction t) auto

lemma strip_Nil_iff: "strip t = [] \<longleftrightarrow> (\<forall>c\<in>set t. isspace c)"
  by (simp add: strip_def dropWhile_eq_Nil_conv dropWhile_all)

lemma strip_newline_only: "strip [10] = []"
  by (simp add: strip_def isspace_def)

lemma isspace_newline: "isspace 10"
  by (simp add: isspace_def)

lemma dropWhile_keeps_last: "dropWhile P xs \<noteq> [] \<Longrightarrow> last (dropWhile P xs) = last xs"
  by (induction xs) (auto split: if_splits)

lemma strip_last: "strip t \<noteq> [] \<Longrightarrow> \<not> isspace (last (strip t))"
  unfolding strip_def
  by (simp add: last_rev hd_dropWhile)

lemma strip_hd: "strip t \<noteq> [] \<Longrightarrow> \<not> isspace (hd (strip t))"
proof -
  assume a: "strip t \<noteq> []"
  let ?u = "dropWhile isspace t"
  let ?v = "dropWhile isspace (rev ?u)"
  have v: "?v \<noteq> []" using a by (simp add: strip_def)
  have u: "?u \<noteq> []"
  proof
    assume "?u = []"
    then have "?v = []" by (simp only: rev.simps(1) dropWhile.simps(1))
    with v show False by contradiction
  qed
  have "hd (strip t) = last ?v" by (simp add: strip_def hd_rev)
  also have "\<dots> = last (rev ?u)" using v by (rule dropWhile_keeps_last)
  also have "\<dots> = hd ?u" using u by (simp add: last_rev)
  finally show ?thesis using u by (simp add: hd_dropWhile)
qed

text \<open>Stripping again after the widget's newline gives the stripped text back.\<close>

lemma strip_newline: "strip (strip t @ [10]) = strip t"
proof (cases "strip t = []")
  case True
  then show ?thesis by (simp add: strip_newline_only)
next
  case False
  let ?u = "strip t"
  have h: "\<not> isspace (hd ?u)" and l: "\<not> isspace (last ?u)"
    using False strip_hd strip_last by auto
  have 1: "dropWhile isspace (?u @ [10]) = ?u @ [10]"
    using False h by (cases ?u) auto
  have "rev ?u \<noteq> []" "\<not> isspace (hd (rev ?u))" using False l by (simp_all add: hd_rev)
  then have 2: "dropWhile isspace (rev ?u) = rev ?u" by (cases "rev ?u") auto
  have "strip (?u @ [10]) = rev (dropWhile isspace (rev (?u @ [10])))"
    unfolding strip_def[of "?u @ [10]"] 1 ..
  also have "\<dots> = rev (dropWhile isspace (rev ?u))" by (simp add: isspace_def)
  also have "\<dots> = ?u" by (simp add: 2)
  finally show ?thesis .
qed

lemma strip_again: "strip (ascii ''again'' @ [10]) = ascii ''again''"
  by (simp add: strip_def ascii_def isspace_def)

section \<open>Properties of \<open>send_message\<close>\<close>

lemma send_message_history:
  "strip (input_field_get s) \<noteq> [] \<Longrightarrow>
     send_message s =
       s\<lparr>input_field := [],
         chat_display := chat_display s @ [Message ''user'' (Plain (strip (input_field_get s)))],
         conversation_history := conversation_history s @
            [\<lparr>role = ''user'', content = strip (input_field_get s)\<rparr>],
         status_bar := Thinking,
         threads := threads s @ [strip (input_field_get s)]\<rparr>"
  by (simp add: send_message_def Let_def add_message_def update_status_def)

text \<open>
  C9. A call to \<open>send_message\<close> with an input text that is empty or consists of whitespace
  only is a pure no-op: the state is returned as it was, so the history is unchanged, no
  request thread is started and nothing marks a stream as outstanding.
\<close>

theorem send_message_blank_is_noop:
  "\<forall>c\<in>set (input_field s). isspace c \<Longrightarrow> send_message s = s"
proof -
  assume "\<forall>c\<in>set (input_field s). isspace c"
  then have "strip (input_field_get s) = []"
    by (simp add: strip_Nil_iff input_field_get_def isspace_newline)
  then show ?thesis by (simp add: send_message_def)
qed

theorem send_message_blank_is_noop_witness:
  "list_all isspace (input_field (idle_app\<lparr>input_field := ascii ''  ''\<rparr>))
   \<and> send_message (idle_app\<lparr>input_field := ascii ''  ''\<rparr>)
       = idle_app\<lparr>input_field := ascii ''  ''\<rparr>"
proof -
  have h: "\<forall>c\<in>set (input_field (idle_app\<lparr>input_field := ascii ''  ''\<rparr>)). isspace c"
    by (simp add: ascii_def isspace_def)
  show ?thesis using h send_message_blank_is_noop [OF h] by (simp add: list_all_iff)
qed

text \<open>
  C1, as stated, fails: \<open>send_message\<close> has no in-flight check. Called while the stream
  for "hello" is outstanding, with "again" typed, it appends a second user turn and starts a
  second request thread.
\<close>

theorem send_message_in_flight_counterexample:
  "threads busy_app \<noteq> [] \<and>
   conversation_history (send_message busy_app) =
     [\<lparr>role = ''user'', content = ascii ''hello''\<rparr>,
      \<lparr>role = ''user'', content = ascii ''again''\<rparr>] \<and>
   threads (send_message busy_app) = [ascii ''hello'', ascii ''again'']"
  by (simp add: send_message_def input_field_get_def strip_again add_message_def
        update_status_def Let_def)
     (simp add: ascii_def)

text \<open>
  C1, amended. Whether or not a stream is outstanding, a call to \<open>send_message\<close> with an
  input text that is not blank appends one user turn with the stripped text to the history
  and starts one more request thread; only a blank text makes the call a no-op.
\<close>

theorem send_message_has_no_in_flight_guard:
  "(strip (input_field_get s) \<noteq> [] \<longrightarrow>
      conversation_history (send_message s) =
        conversation_history s @ [\<lparr>role = ''user'', content = strip (input_field_get s)\<rparr>] \<and>
      threads (send_message s) = threads s @ [strip (input_field_get s)]) \<and>
   (strip (input_field_get s) = [] \<longrightarrow> send_message s = s)"
proof (intro conjI impI)
  assume "strip (input_field_get s) \<noteq> []"
  then show "conversation_history (send_message s) =
        conversation_history s @ [\<lparr>role = ''user'', content = strip (input_field_get s)\<rparr>]"
    and "threads (send_message s) = threads s @ [strip (input_field_get s)]"
    by (simp_all add: send_message_history)
next
  assume "strip (input_field_get s) = []"
  then show "send_message s = s" by (simp add: send_message_def)
qed

theorem send_message_has_no_in_flight_guard_witness:
  "threads busy_app \<noteq> [] \<and>
   conversation_history (send_message busy_app) =
     conversation_history busy_app @ [\<lparr>role = ''user'', content = ascii ''again''\<rparr>] \<and>
   threads (send_message busy_app) = threads busy_app @ [ascii ''again''] \<and>
   send_message waiting_app = waiting_app"
proof -
  have h: "strip (input_field_get busy_app) = ascii ''again''"
    by (simp add: input_field_get_def strip_again)
  have n: "ascii ''again'' \<noteq> []" by (simp add: ascii_def)
  have e: "strip (input_field_get waiting_app) = []"
    by (simp add: input_field_get_def strip_newline_only)
  show ?thesis
    using h n e send_message_has_no_in_flight_guard [of busy_app]
      send_message_has_no_in_flight_guard [of waiting_app]
    by simp
qed

section \<open>Properties of the streaming loop\<close>

lemma tokens_append: "tokens (xs @ ys) = tokens xs @ tokens ys"
  by (induction xs rule: tokens.induct) simp_all

text \<open>The posted fragments spell \<open>full_response\<close>: an invariant of the loop body.\<close>

lemma process_line_tokens:
  "process_line j full posted = Inr (full', posted', d) \<Longrightarrow>
     concat (tokens posted) = full \<Longrightarrow> concat (tokens posted') = full'"
  by (auto simp: process_line_def tokens_append split: sum.splits if_splits json.splits)

lemma stream_loop_tokens:
  "stream_loop ls raised full posted = (Inr full', posted') \<Longrightarrow>
     concat (tokens posted) = full \<Longrightarrow> concat (tokens posted') = full'"
proof (induction ls raised full posted rule: stream_loop.induct)
  case (1 raised full posted)
  then show ?case by (auto split: option.splits)
next
  case (5 j ls raised full posted)
  show ?case
  proof (cases "process_line j full posted")
    case (Inl e)
    with 5 show ?thesis by simp
  next
    case (Inr r)
    obtain f p d where r: "r = (f, p, d)" by (cases r)
    have inv: "concat (tokens p) = f"
      using process_line_tokens Inr r "5.prems"(2) by blast
    show ?thesis
    proof (cases d)
      case True
      with 5 Inr r inv show ?thesis by simp
    next
      case False
      with "5.prems" Inr r have "stream_loop ls raised f p = (Inr full', posted')" by simp
      with "5.IH" Inr r False inv show ?thesis by simp
    qed
  qed
qed simp_all

lemma process_line_done:
  "dict_get j (ascii ''done'') (JBool False) = Inr dv \<Longrightarrow>
   process_line j full posted = Inr (f, p, d) \<Longrightarrow> d = truthy dv"
  by (auto simp: process_line_def split: sum.splits if_splits json.splits)

lemma stream_loop_done_head:
  assumes "dict_get j (ascii ''done'') (JBool False) = Inr dv" "truthy dv"
  shows "stream_loop (Json j # post) raised full posted = stream_loop [Json j] None full posted"
proof (cases "process_line j full posted")
  case (Inl e)
  then show ?thesis by simp
next
  case (Inr r)
  obtain f p d where r: "r = (f, p, d)" by (cases r)
  have "d" using process_line_done[OF assms(1)] Inr r assms(2) by blast
  then show ?thesis using Inr r by simp
qed

text \<open>A line that \<open>json.loads\<close> rejects changes nothing: the loop goes on to the next.\<close>

lemma stream_loop_skips_bad_json:
  "stream_loop (filter (\<lambda>l. l \<noteq> NotJson) ls) raised full posted =
   stream_loop ls raised full posted"
  by (induction ls raised full posted rule: stream_loop.induct) (auto split: sum.splits)

lemma process_chunk:
  "c \<noteq> [] \<Longrightarrow>
   process_line (chunk c d) full posted =
     Inr (full @ ascii c, posted @ [AppendToStreaming (ascii c)], d)"
  by (simp add: process_line_def ascii_def)

lemma hi_there:
  "stream_loop [Json (chunk ''Hi'' False), Json (chunk '' there'' True)] None [] [] =
     (Inr (ascii ''Hi there''),
      [AppendToStreaming (ascii ''Hi''), AppendToStreaming (ascii '' there'')])"
  by (simp add: process_chunk) (simp add: ascii_def)

lemma only_done:
  "stream_loop [Json (JDict [(ascii ''done'', JBool True)])] None [] [] = (Inr [], [])"
  by (simp add: process_line_def ascii_def)

section \<open>Properties of \<open>get_ollama_response\<close>\<close>

text \<open>
  C2. When a stream completes normally (status 200, the loop ends without an exception,
  \<open>full_response\<close> is not empty), the texts of the \<open>append_to_streaming\<close> calls posted
  during the stream, concatenated in the order they were posted, are \<open>full_response\<close>,
  which is the content of the assistant turn appended to the history; the call that
  finishes the streamed message is posted after them.
\<close>

theorem stream_tokens_spell_full_response:
  assumes "stream_loop ls raised [] [] = (Inr full_response, posted)"
      and "full_response \<noteq> []"
  shows "snd (get_ollama_response m (Response 200 body ls raised) s) =
           StartStreamingMessage # posted @ [FinishStreamingMessage, UpdateStatus Ready] \<and>
         concat (tokens (snd (get_ollama_response m (Response 200 body ls raised) s))) =
           full_response \<and>
         conversation_history (fst (get_ollama_response m (Response 200 body ls raised) s)) =
           conversation_history s @ [\<lparr>role = ''assistant'', content = full_response\<rparr>]"
proof -
  have "concat (tokens posted) = full_response"
    using stream_loop_tokens[OF assms(1)] by simp
  then show ?thesis
    using assms by (simp add: get_ollama_response_def thread_returns_def tokens_append)
qed

theorem stream_tokens_spell_full_response_witness:
  "snd (get_ollama_response (ascii ''hello'')
          (Response 200 [] [Json (chunk ''Hi'' False), Json (chunk '' there'' True)] None)
          waiting_app) =
     [StartStreamingMessage, AppendToStreaming (ascii ''Hi''),
      AppendToStreaming (ascii '' there''), FinishStreamingMessage, UpdateStatus Ready] \<and>
   concat (tokens (snd (get_ollama_response (ascii ''hello'')
          (Response 200 [] [Json (chunk ''Hi'' False), Json (chunk '' there'' True)] None)
          waiting_app))) = ascii ''Hi there'' \<and>
   conversation_history (fst (get_ollama_response (ascii ''hello'')
          (Response 200 [] [Json (chunk ''Hi'' False), Json (chunk '' there'' True)] None)
          waiting_app)) =
     [\<lparr>role = ''user'', content = ascii ''hello''\<rparr>,
      \<lparr>role = ''assistant'', content = ascii ''Hi there''\<rparr>]"
proof -
  have ne: "ascii ''Hi there'' \<noteq> []" by (simp add: ascii_def)
  show ?thesis
    using stream_tokens_spell_full_response [OF hi_there ne, of "ascii ''hello''" "[]" waiting_app]
    by (simp add: ascii_def)
qed

text \<open>
  C4. When the stream ends with an empty \<open>full_response\<close>, the request posts the status
  and the system message "No response received from model", appends no assistant turn, and
  leaves the history (so also its length) as it was.
\<close>

theorem empty_stream_appends_no_turn:
  assumes "stream_loop ls raised [] [] = (Inr [], posted)"
  shows "snd (get_ollama_response m (Response 200 body ls raised) s) =
           StartStreamingMessage # posted @
             [UpdateStatus NoResponse, AddMessage ''system'' (Status NoResponse)] \<and>
         conversation_history (fst (get_ollama_response m (Response 200 body ls raised) s)) =
           conversation_history s \<and>
         fst (get_ollama_response m (Response 200 body ls raised) s) = thread_returns m s"
  using assms by (simp add: get_ollama_response_def thread_returns_def)

theorem empty_stream_appends_no_turn_witness:
  "snd (get_ollama_response (ascii ''hello'')
          (Response 200 [] [Json (JDict [(ascii ''done'', JBool True)])] None) waiting_app) =
     [StartStreamingMessage, UpdateStatus NoResponse, AddMessage ''system'' (Status NoResponse)] \<and>
   length (conversation_history (fst (get_ollama_response (ascii ''hello'')
          (Response 200 [] [Json (JDict [(ascii ''done'', JBool True)])] None) waiting_app))) = 1 \<and>
   threads (fst (get_ollama_response (ascii ''hello'')
          (Response 200 [] [Json (JDict [(ascii ''done'', JBool True)])] None) waiting_app)) = []"
  using empty_stream_appends_no_turn [OF only_done, of "ascii ''hello''" "[]" waiting_app]
  by (simp add: thread_returns_def)







lemma failure_report_handle: "list_ex is_failure_report (handle_exception e)"
  by (simp add: handle_exception_def)





text \<open>
  C6. The loop stops at the first decoded line whose \<open>done\<close> value is true: whatever
  arrives after that line, further lines or an exception, changes neither \<open>full_response\<close>
  nor the calls posted.
\<close>

theorem stream_stops_at_done:
  assumes "dict_get j (ascii ''done'') (JBool False) = Inr dv" "truthy dv"
  shows "stream_loop (pre @ Json j # post) raised full posted =
         stream_loop (pre @ [Json j]) None full posted"
proof (induction pre arbitrary: full posted)
  case Nil
  show ?case using stream_loop_done_head[OF assms] by simp
next
  case (Cons l pre)
  show ?case
  proof (cases l)
    case (Json j')
    show ?thesis
    proof (cases "process_line j' full posted")
      case (Inl e)
      then show ?thesis using Json by simp
    next
      case (Inr r)
      obtain f p d where r: "r = (f, p, d)" by (cases r)
      show ?thesis using Json Inr r Cons.IH by simp
    qed
  qed (simp_all add: Cons.IH)
qed

theorem stream_stops_at_done_witness:
  "stream_loop ([Json (chunk ''Hi'' False)] @ Json (chunk '' there'' True) #
                 [Json (chunk ''!'' False), NotUtf8]) (Some Timeout) [] [] =
     (Inr (ascii ''Hi there''),
      [AppendToStreaming (ascii ''Hi''), AppendToStreaming (ascii '' there'')])"
proof -
  have d: "dict_get (chunk '' there'' True) (ascii ''done'') (JBool False) = Inr (JBool True)"
    by (simp add: ascii_def)
  have t: "truthy (JBool True)" by simp
  show ?thesis
    using stream_stops_at_done [OF d t, of "[Json (chunk ''Hi'' False)]"
        "[Json (chunk ''!'' False), NotUtf8]" "Some Timeout" "[]" "[]"] hi_there
    by simp
qed

text \<open>
  C5. The source skips a line only when \<open>json.loads\<close> raises \<open>json.JSONDecodeError\<close>. A
  line that is not valid UTF-8 raises \<open>UnicodeDecodeError\<close> from the same expression, which
  that handler does not catch: the stream is aborted through the outer handler, the later
  lines are not read and no assistant turn is appended. With a line of malformed JSON in
  the same place, the stream completes.
\<close>

theorem undecodable_line_aborts_stream:
  "get_ollama_response (ascii ''hello'')
     (Response 200 [] [Json (chunk ''Hi'' False), NotJson, Json (chunk '' there'' True)] None)
     waiting_app =
   (waiting_app\<lparr>conversation_history :=
        [\<lparr>role = ''user'', content = ascii ''hello''\<rparr>,
         \<lparr>role = ''assistant'', content = ascii ''Hi there''\<rparr>],
      threads := []\<rparr>,
    [StartStreamingMessage, AppendToStreaming (ascii ''Hi''),
     AppendToStreaming (ascii '' there''), FinishStreamingMessage, UpdateStatus Ready]) \<and>
   get_ollama_response (ascii ''hello'')
     (Response 200 [] [Json (chunk ''Hi'' False), NotUtf8, Json (chunk '' there'' True)] None)
     waiting_app =
   (waiting_app\<lparr>threads := []\<rparr>,
    [StartStreamingMessage, AppendToStreaming (ascii ''Hi''),
     UpdateStatus (ErrorText UnicodeDecodeError),
     AddMessage ''system'' (Status (ErrorText UnicodeDecodeError))])"
  by (simp add: get_ollama_response_def process_chunk thread_returns_def handle_exception_def)
     (simp add: ascii_def)

section \<open>Properties of \<open>load_available_models\<close>\<close>

text \<open>
  C10. When the listing succeeds with a non-empty list of names that does not contain the
  current \<open>model\<close>, \<open>load_available_models\<close> replaces \<open>model\<close> by the first name of the list.
  It does so without any model selection by the user, posts only the dropdown update, the
  update of the selection variable and the status "Connected to Ollama", and leaves the
  history as it was.
\<close>

theorem load_available_models_replaces_model:
  assumes "models \<noteq> []" "model s \<notin> set models"
  shows "load_available_models (TagsResponse 200 (Inr models)) s =
           (s\<lparr>model := hd models\<rparr>,
            [DropdownConfig models, ModelVarSet, UpdateStatus ConnectedToOllama]) \<and>
         conversation_history (fst (load_available_models (TagsResponse 200 (Inr models)) s)) =
           conversation_history s \<and>
         run_callbacks (snd (load_available_models (TagsResponse 200 (Inr models)) s))
             (fst (load_available_models (TagsResponse 200 (Inr models)) s)) =
           s\<lparr>model := hd models, dropdown_values := models, model_var := hd models,
             status_bar := ConnectedToOllama\<rparr>"
  using assms
  by (cases models) (simp_all add: load_available_models_def update_status_def)

theorem load_available_models_replaces_model_witness:
  "load_available_models (TagsResponse 200 (Inr [ascii ''mistral'', ascii ''phi3''])) waiting_app =
     (waiting_app\<lparr>model := ascii ''mistral''\<rparr>,
      [DropdownConfig [ascii ''mistral'', ascii ''phi3''], ModelVarSet,
       UpdateStatus ConnectedToOllama]) \<and>
   conversation_history (fst (load_available_models
       (TagsResponse 200 (Inr [ascii ''mistral'', ascii ''phi3''])) waiting_app)) =
     [\<lparr>role = ''user'', content = ascii ''hello''\<rparr>]"
proof -
  have a: "[ascii ''mistral'', ascii ''phi3''] \<noteq> []" by simp
  have b: "model waiting_app \<notin> set [ascii ''mistral'', ascii ''phi3'']"
    by (simp add: ascii_def)
  show ?thesis using load_available_models_replaces_model [OF a b] by simp
qed

section \<open>Properties of the voice loop\<close>

lemma process_voice_input_short:
  "length (strip text) < 2 \<Longrightarrow> process_voice_input text s = s"
  by (auto simp: process_voice_input_def Let_def)

lemma process_voice_input_forward:
  assumes "2 \<le> length (strip text)"
  shows "process_voice_input text s =
     s\<lparr>input_field := [],
       chat_display := chat_display s @
          [Message ''user'' (Voice (strip text)), Message ''user'' (Plain (strip text))],
       conversation_history := conversation_history s @
          [\<lparr>role = ''user'', content = strip text\<rparr>],
       status_bar := Thinking,
       threads := threads s @ [strip text]\<rparr>"
proof -
  let ?s3 = "update_status VoiceCaptured
               (add_message ''user'' (Voice (strip text)) (s\<lparr>input_field := strip text\<rparr>))"
  have ne: "strip text \<noteq> []" using assms by auto
  have g: "strip (input_field_get ?s3) = strip text"
    by (simp add: input_field_get_def update_status_def add_message_def strip_newline)
  have "process_voice_input text s = send_message ?s3"
    using assms ne by (simp add: process_voice_input_def Let_def)
  also have "\<dots> = ?s3\<lparr>input_field := [],
         chat_display := chat_display ?s3 @ [Message ''user'' (Plain (strip text))],
         conversation_history := conversation_history ?s3 @
            [\<lparr>role = ''user'', content = strip text\<rparr>],
         status_bar := Thinking,
         threads := threads ?s3 @ [strip text]\<rparr>"
    using send_message_history[of ?s3] ne g by simp
  finally show ?thesis by (simp add: update_status_def add_message_def)
qed

lemma strip_ok: "strip (ascii '' ok '') = ascii ''ok''"
  by (simp add: strip_def ascii_def isspace_def)
lemma strip_a: "strip (ascii ''a '') = ascii ''a''"
  by (simp add: strip_def ascii_def isspace_def)

text \<open>
  C8. A recognized text reaches \<open>send_message\<close>, which appends it, stripped, as a user
  turn and starts a request, if and only if its stripped length is at least 2. A text of
  stripped length 0 or 1 is dropped: nothing runs on the UI thread for it but the status
  posted before recognition, and \<open>process_voice_input\<close> returns the state as it was.
\<close>

theorem voice_text_forwarded_iff_two_chars:
  "(2 \<le> length (strip text) \<longrightarrow>
      conversation_history
        (run_callbacks (posted_calls (fst (snd (listen_iteration (Recognized text) c)))) s) =
        conversation_history s @ [\<lparr>role = ''user'', content = strip text\<rparr>] \<and>
      threads (run_callbacks (posted_calls (fst (snd (listen_iteration (Recognized text) c)))) s) =
        threads s @ [strip text]) \<and>
   (length (strip text) < 2 \<longrightarrow>
      run_callbacks (posted_calls (fst (snd (listen_iteration (Recognized text) c)))) s =
        update_status ProcessingSpeech s \<and>
      process_voice_input text s = s)"
proof (intro conjI impI)
  assume a: "2 \<le> length (strip text)"
  have ne: "text \<noteq> []" "0 < length (strip text)"
  proof -
    show "text \<noteq> []"
    proof
      assume "text = []"
      then have "strip text = []" by (simp add: strip_def)
      with a show False by simp
    qed
    show "0 < length (strip text)" using a by arith
  qed
  have r: "run_callbacks (posted_calls (fst (snd (listen_iteration (Recognized text) c)))) s =
        process_voice_input text (update_status ProcessingSpeech s)"
    using ne by simp
  show "conversation_history
        (run_callbacks (posted_calls (fst (snd (listen_iteration (Recognized text) c)))) s) =
        conversation_history s @ [\<lparr>role = ''user'', content = strip text\<rparr>]"
    unfolding r by (simp add: process_voice_input_forward[OF a] update_status_def)
  show "threads (run_callbacks (posted_calls (fst (snd (listen_iteration (Recognized text) c)))) s) =
        threads s @ [strip text]"
    unfolding r by (simp add: process_voice_input_forward[OF a] update_status_def)
next
  assume a: "length (strip text) < 2"
  show "process_voice_input text s = s" using a by (rule process_voice_input_short)
  show "run_callbacks (posted_calls (fst (snd (listen_iteration (Recognized text) c)))) s =
        update_status ProcessingSpeech s"
    using process_voice_input_short[OF a] by simp
qed

theorem voice_text_forwarded_iff_two_chars_witness:
  "conversation_history
     (run_callbacks (posted_calls (fst (snd (listen_iteration (Recognized (ascii '' ok '')) 3))))
        idle_app) = [\<lparr>role = ''user'', content = ascii ''ok''\<rparr>] \<and>
   threads
     (run_callbacks (posted_calls (fst (snd (listen_iteration (Recognized (ascii '' ok '')) 3))))
        idle_app) = [ascii ''ok''] \<and>
   run_callbacks (posted_calls (fst (snd (listen_iteration (Recognized (ascii ''a '')) 3))))
        idle_app = idle_app\<lparr>status_bar := ProcessingSpeech\<rparr>"
proof -
  have a: "2 \<le> length (strip (ascii '' ok ''))" by (simp add: strip_ok) (simp add: ascii_def)
  have b: "length (strip (ascii ''a '')) < 2" by (simp add: strip_a) (simp add: ascii_def)
  show ?thesis
    using a b
      voice_text_forwarded_iff_two_chars [of "ascii '' ok ''" 3 idle_app]
      voice_text_forwarded_iff_two_chars [of "ascii ''a ''" 3 idle_app]
    by (simp add: strip_ok update_status_def)
qed

lemma listen_iteration_below_cap:
  "c < max_errors \<Longrightarrow> \<not> failed_recalibration i \<Longrightarrow> fst (listen_iteration i c) < max_errors"
  by (cases i) (auto simp: handle_other_def max_errors_def Let_def)

lemma listen_loop_below_cap:
  "c < max_errors \<Longrightarrow> \<not> list_ex failed_recalibration passes \<Longrightarrow>
     fst (listen_loop passes c) < max_errors"
proof (induction passes arbitrary: c)
  case Nil
  then show ?case by simp
next
  case (Cons i passes)
  obtain c' eff cont where it: "listen_iteration i c = (c', eff, cont)"
    by (cases "listen_iteration i c")
  have c': "c' < max_errors"
    using listen_iteration_below_cap[of c i] Cons.prems it by simp
  show ?case
  proof (cases cont)
    case True
    obtain c'' eff' where l: "listen_loop passes c' = (c'', eff')"
      by (cases "listen_loop passes c'")
    have "fst (listen_loop passes c') < max_errors"
      using Cons.IH[OF c'] Cons.prems(2) by simp
    then show ?thesis using it True l by simp
  next
    case False
    then show ?thesis using it c' by simp
  qed
qed

lemma no_failed_take:
  "\<not> list_ex failed_recalibration passes \<Longrightarrow> \<not> list_ex failed_recalibration (take n passes)"
  by (auto simp: list_ex_iff dest: in_set_takeD)

lemma recalibration_only_on_other:
  "list_ex is_recalibration (fst (snd (listen_iteration i c))) \<Longrightarrow>
     max_errors \<le> c + 1 \<and> (\<exists>e ok. i = CaptureError e True ok \<or> i = RecognizeError e True ok)"
  by (cases i) (auto simp: handle_other_def Let_def split: if_splits)

text \<open>
  C7, as stated, fails: when \<open>consecutive_errors\<close> reaches \<open>max_errors\<close> through
  \<open>RequestError\<close>, the loop posts a hint and resets the count but does not recalibrate.
  After four such errors the count is 4; the fifth sets it to 0, and no call of
  \<open>adjust_for_ambient_noise\<close> has been made.
\<close>

theorem request_errors_reach_cap_counterexample:
  "fst (listen_continuously
          [RequestError (ascii ''down''), RequestError (ascii ''down''),
           RequestError (ascii ''down''), RequestError (ascii ''down'')]) = 4 \<and>
   fst (listen_continuously
          [RequestError (ascii ''down''), RequestError (ascii ''down''),
           RequestError (ascii ''down''), RequestError (ascii ''down''),
           RequestError (ascii ''down'')]) = 0 \<and>
   \<not> list_ex is_recalibration
      (snd (listen_continuously
          [RequestError (ascii ''down''), RequestError (ascii ''down''),
           RequestError (ascii ''down''), RequestError (ascii ''down''),
           RequestError (ascii ''down'')]))"
  by (simp add: listen_continuously_def max_errors_def Let_def)

text \<open>
  C7, amended. As long as no recalibration attempt fails, \<open>consecutive_errors\<close> is below
  \<open>max_errors\<close> after every pass of the loop. When the count reaches \<open>max_errors\<close> through
  \<open>RequestError\<close> or \<open>UnknownValueError\<close>, the loop posts a status hint and resets the
  count to 0 without recalibrating. It recalibrates only when the count reaches
  \<open>max_errors\<close> through another exception while still listening, and then resets the
  count when the recalibration succeeds.
\<close>

theorem voice_counter_stays_below_cap:
  "(c < max_errors \<and> \<not> list_ex failed_recalibration passes \<longrightarrow>
      fst (listen_loop (take n passes) c) < max_errors) \<and>
   (max_errors \<le> c + 1 \<longrightarrow>
      listen_iteration (RequestError e) c =
        (0, [Post (UpdateStatus ProcessingSpeech),
             Post (UpdateStatus (SpeechApiError (take 50 e))),
             Post (UpdateStatus CheckInternet), Sleep 1000], True) \<and>
      listen_iteration UnknownValueError c =
        (0, [Post (UpdateStatus ProcessingSpeech), Post (UpdateStatus SpeakLouder)], True) \<and>
      listen_iteration (CaptureError e True True) c =
        (0, [Post (UpdateStatus (ErrorShort (take 40 e))), AdjustForAmbientNoise True,
             Post (UpdateStatus Recalibrated), Sleep 500], True)) \<and>
   (list_ex is_recalibration (fst (snd (listen_iteration i c))) \<longrightarrow>
      max_errors \<le> c + 1 \<and>
      (\<exists>e ok. i = CaptureError e True ok \<or> i = RecognizeError e True ok))"
proof (intro conjI impI)
  assume "c < max_errors \<and> \<not> list_ex failed_recalibration passes"
  then show "fst (listen_loop (take n passes) c) < max_errors"
    using listen_loop_below_cap no_failed_take by blast
next
  assume a: "max_errors \<le> c + 1"
  show "listen_iteration (RequestError e) c =
        (0, [Post (UpdateStatus ProcessingSpeech),
             Post (UpdateStatus (SpeechApiError (take 50 e))),
             Post (UpdateStatus CheckInternet), Sleep 1000], True)"
    using a by (simp add: Let_def)
  show "listen_iteration UnknownValueError c =
        (0, [Post (UpdateStatus ProcessingSpeech), Post (UpdateStatus SpeakLouder)], True)"
    using a by (simp add: Let_def)
  show "listen_iteration (CaptureError e True True) c =
        (0, [Post (UpdateStatus (ErrorShort (take 40 e))), AdjustForAmbientNoise True,
             Post (UpdateStatus Recalibrated), Sleep 500], True)"
    using a by (simp add: handle_other_def Let_def)
next
  assume "list_ex is_recalibration (fst (snd (listen_iteration i c)))"
  then have r: "max_errors \<le> c + 1 \<and> (\<exists>e ok. i = CaptureError e True ok \<or> i = RecognizeError e True ok)"
    by (rule recalibration_only_on_other)
  show "max_errors \<le> c + 1" using r by simp
  show "\<exists>e ok. i = CaptureError e True ok \<or> i = RecognizeError e True ok" using r by simp
qed

theorem voice_counter_stays_below_cap_witness:
  "fst (listen_loop [RequestError [], RequestError [], UnknownValueError, RequestError [],
                     CaptureError [] True True, RequestError []] 0) < max_errors \<and>
   listen_iteration (RequestError []) 4 =
     (0, [Post (UpdateStatus ProcessingSpeech), Post (UpdateStatus (SpeechApiError [])),
          Post (UpdateStatus CheckInternet), Sleep 1000], True) \<and>
   listen_iteration (CaptureError [] True True) 4 =
     (0, [Post (UpdateStatus (ErrorShort [])), AdjustForAmbientNoise True,
          Post (UpdateStatus Recalibrated), Sleep 500], True)"
proof -
  have a: "(0::nat) < max_errors \<and>
      \<not> list_ex failed_recalibration
          [RequestError [], RequestError [], UnknownValueError, RequestError [],
           CaptureError [] True True, RequestError []]"
    by (simp add: max_errors_def)
  have b: "max_errors \<le> 4 + 1" by (simp add: max_errors_def)
  have c: "list_ex is_recalibration (fst (snd (listen_iteration (CaptureError [] True True) 4)))"
    by (simp add: handle_other_def max_errors_def Let_def)
  show ?thesis
    using a b c
      voice_counter_stays_below_cap [where c = 0 and n = 6 and
        passes = "[RequestError [], RequestError [], UnknownValueError, RequestError [],
                 CaptureError [] True True, RequestError []]"]
      voice_counter_stays_below_cap [where c = 4 and e = "[]" and i = "CaptureError [] True True"]
    by simp
qed

end
